theory Spec2Isabelle
  imports
    Complex_Main
    "HOL-Library.Char_ord"
    "HOL-Library.List_Lexorder"
    "HOL-Library.Sublist"
    "HOL-Library.Multiset"
begin

section \<open>kubetop: a shallow embedding of kubetop.go\<close>

text \<open>
  Go strings are byte strings: \<^typ>\<open>string\<close> is a list of 8-bit characters, \<open>len\<close> is
  \<^const>\<open>length\<close>, and Go's \<open><\<close> on strings is the bytewise lexicographic order, which
  is the order of \<^typ>\<open>char list\<close> obtained from the order on characters.
\<close>

subsection \<open>Rows and their order (type Row, type Rows, Len, Swap, Less)\<close>

type_synonym Row = "string list"
type_synonym Rows = "Row list"

text \<open>\<open>strings.Join(a, sep)\<close>.\<close>

fun Join :: "string list \<Rightarrow> string \<Rightarrow> string" where
  "Join [] sep = []"
| "Join [x] sep = x"
| "Join (x # y # ys) sep = x @ sep @ Join (y # ys) sep"

text \<open>
  \<open>fmt.Sprintf("%s", r)\<close> for a slice of strings \<open>r\<close>: the elements separated by
  single spaces, between square brackets.
\<close>

definition Sprintf_s :: "Row \<Rightarrow> string" where
  "Sprintf_s r = ''['' @ Join r '' '' @ '']''"

definition Len :: "Rows \<Rightarrow> nat" where
  "Len r = length r"

definition Swap :: "Rows \<Rightarrow> nat \<Rightarrow> nat \<Rightarrow> Rows" where
  "Swap r i j = r[i := r ! j, j := r ! i]"

definition Less :: "Rows \<Rightarrow> nat \<Rightarrow> nat \<Rightarrow> bool" where
  "Less r i j \<longleftrightarrow> Sprintf_s (r ! i) < Sprintf_s (r ! j)"

text \<open>
  \<open>sort.Sort(rows)\<close> belongs to Go's standard library, which drives the three methods
  above: it leaves the data in ascending order as determined by \<open>Less\<close>, and promises no
  stability. The library's procedure is not part of the program; it is embedded by the
  library's own \<open>insertionSort(data, 0, data.Len())\<close>, the routine it runs on short
  slices:
  \<^verbatim>\<open>
  for i := a + 1; i < b; i++ {
      for j := i; j > a && data.Less(j, j-1); j-- {
          data.Swap(j, j-1)
      }
  }
  \<close>
  Every index handed to \<open>Less\<close> and \<open>Swap\<close> is below \<open>Len\<close>, so the reads \<open>r ! i\<close> are
  in range.
\<close>

fun insertDown :: "Rows \<Rightarrow> nat \<Rightarrow> Rows" where
  "insertDown r 0 = r"
| "insertDown r (Suc j) =
     (if Less r (Suc j) j then insertDown (Swap r (Suc j) j) j else r)"

definition insertionSort :: "Rows \<Rightarrow> Rows" where
  "insertionSort r = fold (\<lambda>i r. insertDown r i) [1 ..< Len r] r"

definition sort_Sort :: "Rows \<Rightarrow> Rows" where
  "sort_Sort r = insertionSort r"

subsection \<open>lcp\<close>

text \<open>The pass over \<open>l[1:]\<close> that keeps the least and the greatest string seen.\<close>

fun minmax :: "string \<Rightarrow> string \<Rightarrow> string list \<Rightarrow> string \<times> string" where
  "minmax mn mx [] = (mn, mx)"
| "minmax mn mx (s # l) =
     (if s < mn then minmax s mx l
      else if s > mx then minmax mn s l
      else minmax mn mx l)"

text \<open>The final loop: compare \<open>min\<close> and \<open>max\<close> byte by byte from index \<open>i\<close>.\<close>

function diverge :: "string \<Rightarrow> string \<Rightarrow> nat \<Rightarrow> string" where
  "diverge mn mx i =
     (if i < length mn \<and> i < length mx
      then (if mn ! i \<noteq> mx ! i then take i mn else diverge mn mx (i + 1))
      else mn)"
  by pat_completeness auto
termination
  by (relation "measure (\<lambda>(mn, mx, i). length mn - i)") auto

declare diverge.simps [simp del]

fun lcp :: "string list \<Rightarrow> string" where
  "lcp [] = []"
| "lcp [x] = x"
| "lcp (x # l) = (case minmax x x l of (mn, mx) \<Rightarrow> diverge mn mx 0)"

subsection \<open>shortHumanDuration\<close>

text \<open>\<open>%d\<close> of \<open>fmt\<close>: decimal digits, with a minus sign for a negative number.\<close>

fun digits :: "nat \<Rightarrow> string" where
  "digits n =
     (if n < 10 then [''0123456789'' ! n]
      else digits (n div 10) @ [''0123456789'' ! (n mod 10)])"

declare digits.simps [simp del]

definition itoa :: "int \<Rightarrow> string" where
  "itoa n = (if n < 0 then ''-'' @ digits (nat (- n)) else digits (nat n))"

text \<open>
  A \<open>time.Duration\<close> is a count of nanoseconds. \<open>Duration.Seconds\<close>, \<open>Minutes\<close> and
  \<open>Hours\<close> belong to Go's \<open>time\<close> package and return the duration as a fractional number
  of the unit; they are embedded as exact rational quotients, so the rounding of the
  library's \<open>float64\<close> arithmetic is not part of this model. Go's conversion \<open>int(f)\<close>
  discards the fraction (it truncates towards zero), and \<open>/\<close> on Go integers truncates
  towards zero too.
\<close>

definition Seconds :: "int \<Rightarrow> rat" where
  "Seconds d = of_int d / 1000000000"

definition Minutes :: "int \<Rightarrow> rat" where
  "Minutes d = of_int d / 60000000000"

definition Hours :: "int \<Rightarrow> rat" where
  "Hours d = of_int d / 3600000000000"

definition to_int :: "rat \<Rightarrow> int" where
  "to_int f = (if f < 0 then \<lceil>f\<rceil> else \<lfloor>f\<rfloor>)"

definition quo :: "int \<Rightarrow> int \<Rightarrow> int" where
  "quo a b = sgn a * sgn b * (\<bar>a\<bar> div \<bar>b\<bar>)"

definition shortHumanDuration :: "int \<Rightarrow> string" where
  "shortHumanDuration d =
     (let seconds = to_int (Seconds d) in
      if seconds < - 1 then ''<invalid>''
      else if seconds < 0 then ''0s''
      else if seconds < 60 then itoa seconds @ ''s''
      else
        let minutes = to_int (Minutes d) in
        if minutes < 60 then itoa minutes @ ''m''
        else
          let hours = to_int (Hours d) in
          if hours < 24 then itoa hours @ ''h''
          else if hours < 24 * 364 then itoa (quo hours 24) @ ''d''
          else itoa (to_int (Hours d / 24 / 365)) @ ''y'')"

subsection \<open>The process-wide variables and the API objects\<close>

text \<open>
  The six colour functions are values of the library call
  \<open>color.New(...).SprintFunc()\<close>; each maps a string to a string. Together with the
  \<open>-namespace\<close> flag they are the package-level variables of the program.
\<close>

record Globals =
  colorNode :: "string \<Rightarrow> string"
  colorPod :: "string \<Rightarrow> string"
  colorService :: "string \<Rightarrow> string"
  colorDeployment :: "string \<Rightarrow> string"
  colorFailed :: "string \<Rightarrow> string"
  colorWarning :: "string \<Rightarrow> string"
  flagNamespace :: string

text \<open>
  The fields of the API objects that the program reads. \<open>ObjectMeta\<close> is embedded in
  every object; a time is a count of nanoseconds; a node, deployment or pod condition
  has a \<open>Type\<close> and a \<open>Status\<close>; the replica counts are \<open>int32\<close> values, which are
  only compared and printed; \<open>Spec.Replicas\<close> of a deployment is a pointer, \<open>None\<close>
  when it is nil.
\<close>

record ObjectMeta =
  Name :: string
  Namespace :: string
  CreationTimestamp :: int

record Condition =
  Type :: string
  Status :: string

record Node = ObjectMeta +
  Node_Status_Phase :: string
  Node_Status_Conditions :: "Condition list"
  Node_Status_Addresses :: "string list"

record LoadBalancerIngress =
  IP :: string
  Hostname :: string

record Service = ObjectMeta +
  Status_LoadBalancer_Ingress :: "LoadBalancerIngress list"
  Spec_Ports :: "string list"
  Spec_ExternalIPs :: "string list"
  Spec_ClusterIP :: string

record Deployment = ObjectMeta +
  Deployment_Status_Conditions :: "Condition list"
  Status_AvailableReplicas :: int
  Status_Replicas :: int
  Spec_Replicas :: "int option"

record Pod = ObjectMeta +
  Pod_Status_Phase :: string
  Pod_Status_Conditions :: "Condition list"
  Status_PodIP :: string
  Spec_NodeName :: string

text \<open>
  How the process can end: \<open>log.Fatal\<close> and \<open>log.Fatalf\<close> print their message and exit
  with status 1; dereferencing a nil pointer panics. Both end the whole process.
\<close>

datatype exit = Fatal string | Panic

text \<open>
  \<open>time.Since(t)\<close> with the current time \<open>now\<close>: the difference, kept within the
  range of a 64-bit \<open>Duration\<close> as \<open>Time.Sub\<close> does.
\<close>

definition Since :: "int \<Rightarrow> int \<Rightarrow> int" where
  "Since now t = max (- (2 ^ 63)) (min (2 ^ 63 - 1) (now - t))"

text \<open>\<open>strings.TrimPrefix(s, prefix)\<close>.\<close>

definition TrimPrefix :: "string \<Rightarrow> string \<Rightarrow> string" where
  "TrimPrefix s p = (if take (length p) s = p then drop (length p) s else s)"

subsection \<open>The data of one cycle\<close>

text \<open>
  The outcomes of the four list calls of one cycle; the program counters of the
  goroutines of one cycle, and the state they share (the steps are given further
  down, after the fetchers).
\<close>

record Cluster =
  Nodes_List :: "string + Node list"
  Services_List :: "string + Service list"
  Deployments_List :: "string + Deployment list"
  Pods_List :: "string + Pod list"

datatype fetcher = Start | Sending Rows | Deferred | Done

datatype collector = Receive | Append Rows | Returned

datatype controller = AtWait | AtClose | AtSort | AtRender | AtSleep Rows

record state =
  fetchers :: "fetcher list"
  collector :: collector
  controller :: controller
  main_rows :: Rows
  closed :: bool
  exited :: "exit option"

subsection \<open>truncate\<close>

definition truncate :: "string \<Rightarrow> string" where
  "truncate s =
     (let max = (20::nat); rightLen = (5::nat) in
      if length s < max then s
      else take (max - 3 - rightLen) s @ ''...'' @ drop (length s - rightLen) s)"

subsection \<open>The loops shared by the fetchers\<close>

text \<open>
  \<^verbatim>\<open>
  for _, c := range conditions {
      if c.Status != "True" { continue }
      statuses = append(statuses, string(c.Type))
  }
  \<close>
\<close>

fun appendTrue :: "string list \<Rightarrow> Condition list \<Rightarrow> string list" where
  "appendTrue statuses [] = statuses"
| "appendTrue statuses (c # cs) =
     (if Status c \<noteq> ''True'' then appendTrue statuses cs
      else appendTrue (statuses @ [Type c]) cs)"

subsection \<open>getNodes\<close>

text \<open>The loop over \<open>node.Status.Addresses\<close> with its map of addresses already seen.\<close>

fun uniqueAddresses ::
  "(string \<Rightarrow> bool) \<Rightarrow> string list \<Rightarrow> string list \<Rightarrow> string list" where
  "uniqueAddresses addressesMap addresses [] = addresses"
| "uniqueAddresses addressesMap addresses (addr # rest) =
     (if addressesMap addr = True then uniqueAddresses addressesMap addresses rest
      else uniqueAddresses (addressesMap(addr := True)) (addresses @ [addr]) rest)"

definition nodeRow :: "Globals \<Rightarrow> int \<Rightarrow> 'a Node_scheme \<Rightarrow> Row" where
  "nodeRow g now node =
     (let statuses = (if length (Node_Status_Phase node) > 0 then [Node_Status_Phase node] else []);
          statuses = appendTrue statuses (Node_Status_Conditions node);
          addresses = uniqueAddresses (\<lambda>_. False) [] (Node_Status_Addresses node)
      in [colorNode g ''[node]'',
          colorNode g (Namespace node),
          colorNode g (Name node),
          colorNode g (Join statuses '' ''),
          colorNode g [],
          colorNode g (Join addresses '' ''),
          colorNode g (shortHumanDuration (Since now (CreationTimestamp node)))])"

fun nodeRows :: "Globals \<Rightarrow> int \<Rightarrow> Rows \<Rightarrow> 'a Node_scheme list \<Rightarrow> Rows" where
  "nodeRows g now rows [] = rows"
| "nodeRows g now rows (node # items) =
     (if flagNamespace g \<noteq> [] \<and> Namespace node \<noteq> flagNamespace g
      then nodeRows g now rows items
      else nodeRows g now (rows @ [nodeRow g now node]) items)"

text \<open>
  A fetcher is given the outcome of its list call, \<open>Inl err\<close> or \<open>Inr items\<close>, and the
  current time. It returns the rows it sends on the channel, or how the process ended.
\<close>

definition getNodes :: "Globals \<Rightarrow> int \<Rightarrow> string + 'a Node_scheme list \<Rightarrow> exit + Rows" where
  "getNodes g now nodes =
     (case nodes of
        Inl err \<Rightarrow> Inl (Fatal err)
      | Inr items \<Rightarrow> Inr (nodeRows g now [] items))"

subsection \<open>getServices\<close>

definition serviceRow :: "Globals \<Rightarrow> int \<Rightarrow> 'a Service_scheme \<Rightarrow> Row" where
  "serviceRow g now service =
     (let statuses = map (\<lambda>c. IP c @ '' '' @ Hostname c) (Status_LoadBalancer_Ingress service);
          ports = Spec_Ports service;
          ips = Spec_ExternalIPs service;
          ips = (if Spec_ClusterIP service \<noteq> [] then ips @ [Spec_ClusterIP service] else ips)
      in [colorService g ''[svc]'',
          colorService g (Namespace service),
          colorService g (Name service),
          colorService g (Join statuses '',''),
          colorService g [],
          colorService g (Join ips '' '' @ '' '' @ Join ports '' ''),
          colorService g (shortHumanDuration (Since now (CreationTimestamp service)))])"

fun serviceRows :: "Globals \<Rightarrow> int \<Rightarrow> Rows \<Rightarrow> 'a Service_scheme list \<Rightarrow> Rows" where
  "serviceRows g now rows [] = rows"
| "serviceRows g now rows (service # items) =
     (if Namespace service = ''kube-system'' then serviceRows g now rows items
      else if flagNamespace g \<noteq> [] \<and> Namespace service \<noteq> flagNamespace g
      then serviceRows g now rows items
      else serviceRows g now (rows @ [serviceRow g now service]) items)"

definition getServices ::
  "Globals \<Rightarrow> int \<Rightarrow> string + 'a Service_scheme list \<Rightarrow> exit + Rows" where
  "getServices g now services =
     (case services of
        Inl err \<Rightarrow> Inl (Fatal err)
      | Inr items \<Rightarrow> Inr (serviceRows g now [] items))"

subsection \<open>getDeployments\<close>

text \<open>
  The row of one deployment. The first thing evaluated after the conditions are
  collected is \<open>*dep.Spec.Replicas\<close>, which panics when the pointer is nil.
\<close>

definition deploymentRow :: "Globals \<Rightarrow> int \<Rightarrow> 'a Deployment_scheme \<Rightarrow> exit + Row" where
  "deploymentRow g now dep =
     (let statuses = appendTrue [] (Deployment_Status_Conditions dep) in
      case Spec_Replicas dep of
        None \<Rightarrow> Inl Panic
      | Some replicas \<Rightarrow>
          let text = itoa (Status_AvailableReplicas dep) @ ''/'' @ itoa (Status_Replicas dep)
                     @ ''/'' @ itoa replicas @ '' '' @ Join statuses '' '';
              status = (if Status_AvailableReplicas dep < replicas
                        then colorFailed g text else colorDeployment g text)
          in Inr [colorDeployment g ''[deploy]'',
                  colorDeployment g (Namespace dep),
                  colorDeployment g (Name dep),
                  status,
                  colorDeployment g [],
                  colorDeployment g [],
                  colorDeployment g (shortHumanDuration (Since now (CreationTimestamp dep)))])"

fun deploymentRows ::
  "Globals \<Rightarrow> int \<Rightarrow> Rows \<Rightarrow> 'a Deployment_scheme list \<Rightarrow> exit + Rows" where
  "deploymentRows g now rows [] = Inr rows"
| "deploymentRows g now rows (dep # items) =
     (if Namespace dep = ''kube-system'' then deploymentRows g now rows items
      else if flagNamespace g \<noteq> [] \<and> Namespace dep \<noteq> flagNamespace g
      then deploymentRows g now rows items
      else (case deploymentRow g now dep of
              Inl e \<Rightarrow> Inl e
            | Inr row \<Rightarrow> deploymentRows g now (rows @ [row]) items))"

definition getDeployments ::
  "Globals \<Rightarrow> int \<Rightarrow> string + 'a Deployment_scheme list \<Rightarrow> exit + Rows" where
  "getDeployments g now deps =
     (case deps of
        Inl err \<Rightarrow> Inl (Fatal err)
      | Inr items \<Rightarrow> deploymentRows g now [] items)"

subsection \<open>getPods\<close>

definition podRow :: "Globals \<Rightarrow> int \<Rightarrow> string \<Rightarrow> 'a Pod_scheme \<Rightarrow> Row" where
  "podRow g now lcpNodes pod =
     (let status = Pod_Status_Phase pod;
          statuses = appendTrue [status] (Pod_Status_Conditions pod);
          status = (if status = ''Running'' then colorPod g (Join statuses '' '')
                    else colorFailed g (Join statuses '' ''))
      in [colorPod g ''[pod]'',
          colorPod g (Namespace pod),
          colorPod g (truncate (Name pod)),
          status,
          colorPod g (TrimPrefix (Spec_NodeName pod) lcpNodes),
          colorPod g (Status_PodIP pod),
          colorPod g (shortHumanDuration (Since now (CreationTimestamp pod)))])"

fun podRows :: "Globals \<Rightarrow> int \<Rightarrow> string \<Rightarrow> Rows \<Rightarrow> 'a Pod_scheme list \<Rightarrow> Rows" where
  "podRows g now lcpNodes rows [] = rows"
| "podRows g now lcpNodes rows (pod # items) =
     (if Namespace pod = ''kube-system'' then podRows g now lcpNodes rows items
      else if flagNamespace g \<noteq> [] \<and> Namespace pod \<noteq> flagNamespace g
      then podRows g now lcpNodes rows items
      else podRows g now lcpNodes (rows @ [podRow g now lcpNodes pod]) items)"

definition getPods ::
  "Globals \<Rightarrow> int \<Rightarrow> string + 'a Pod_scheme list \<Rightarrow> string \<Rightarrow> exit + Rows" where
  "getPods g now pods lcpNodes =
     (case pods of
        Inl err \<Rightarrow> Inl (Fatal err)
      | Inr items \<Rightarrow> Inr (podRows g now lcpNodes [] items))"

subsection \<open>render\<close>

text \<open>
  The first loop of \<open>render\<close> ends the process at the first row whose length differs
  from the header's; the message prints \<open>len(rows)\<close>, as the source does. Otherwise the
  table library is given the header and then every row in order: the result is the
  list of lines handed to it.
\<close>

fun checkRows :: "Row \<Rightarrow> Rows \<Rightarrow> nat \<Rightarrow> Rows \<Rightarrow> exit option" where
  "checkRows header rows i [] = None"
| "checkRows header rows i (row # rest) =
     (if length header \<noteq> length row
      then Some (Fatal (''len(header)='' @ itoa (int (length header))
                        @ '' != len(row)='' @ itoa (int (length rows))
                        @ '' for row '' @ itoa (int i)))
      else checkRows header rows (i + 1) rest)"

definition render :: "Row \<Rightarrow> Rows \<Rightarrow> exit + Rows" where
  "render header rows =
     (case checkRows header rows 0 rows of
        Some e \<Rightarrow> Inl e
      | None \<Rightarrow> Inr (header # rows))"

definition tableHeader :: Row where
  "tableHeader = [''Type'', ''Namespace'', ''Name'', ''Status'', ''Node'', ''IPs'', ''Age'']"

subsection \<open>One cycle of main: the goroutines and their interleavings\<close>

text \<open>
  The four list calls of one cycle, each with its outcome, and the fetcher started for
  each index: 0 is \<open>getNodes\<close>, 1 is \<open>getServices\<close>, 2 is \<open>getDeployments\<close> and 3 is
  \<open>getPods\<close>. The clock is read as one value.
\<close>

definition fetch :: "Globals \<Rightarrow> int \<Rightarrow> string \<Rightarrow> Cluster \<Rightarrow> nat \<Rightarrow> exit + Rows" where
  "fetch g now lcpNodes api i =
     (if i = 0 then getNodes g now (Nodes_List api)
      else if i = 1 then getServices g now (Services_List api)
      else if i = 2 then getDeployments g now (Deployments_List api)
      else getPods g now (Pods_List api) lcpNodes)"

text \<open>
  One pass of the \<open>for\<close> loop of \<open>main\<close> is the work of six goroutines (\<open>main\<close>, the
  collector and the four fetchers) over the variable \<open>rows\<close> of \<open>main\<close> (the field
  \<open>main_rows\<close> of the state) and the unbuffered channel \<open>ch\<close>:
  \<^item> a fetcher goroutine runs its fetcher up to \<open>ch <- rows\<close> (or ends the process),
    blocks there until the collector receives, returns, and then runs the deferred
    \<open>wg.Done()\<close>;
  \<^item> the collector goroutine, \<open>for r := range ch { rows = append(rows, r...) }\<close>,
    receives a value, then appends it, and returns once the channel is closed;
  \<^item> the main goroutine passes \<open>wg.Wait()\<close> once the four fetchers have called
    \<open>wg.Done()\<close>, then runs \<open>close(ch)\<close>, \<open>sort.Sort(rows)\<close> and \<open>render(..., rows)\<close>,
    and sleeps.
  Each goroutine has a program counter; a step of the whole program is one step of one
  goroutine, and a schedule is the list of steps taken.
\<close>

datatype action =
  Fetch nat | Send nat | WgDone nat | DoAppend | DoReturn | Wait | Close | Sort | Render

definition init :: state where
  "init = \<lparr>fetchers = [Start, Start, Start, Start], collector = Receive,
           controller = AtWait, main_rows = [], closed = False, exited = None\<rparr>"

text \<open>
  \<open>step out a s\<close> is the state after step \<open>a\<close>, or \<open>None\<close> when the goroutine of \<open>a\<close>
  cannot take that step in \<open>s\<close>; \<open>out i\<close> is what fetcher \<open>i\<close> computes. No step is
  possible once the process has exited.
\<close>

fun step :: "(nat \<Rightarrow> exit + Rows) \<Rightarrow> action \<Rightarrow> state \<Rightarrow> state option" where
  "step out (Fetch i) s =
     (if exited s = None \<and> i < length (fetchers s) \<and> fetchers s ! i = Start
      then (case out i of
              Inl e \<Rightarrow> Some (s\<lparr>exited := Some e\<rparr>)
            | Inr r \<Rightarrow> Some (s\<lparr>fetchers := (fetchers s)[i := Sending r]\<rparr>))
      else None)"
| "step out (Send i) s =
     (if exited s = None \<and> i < length (fetchers s) \<and> collector s = Receive \<and> \<not> closed s
      then (case fetchers s ! i of
              Sending r \<Rightarrow> Some (s\<lparr>fetchers := (fetchers s)[i := Deferred], collector := Append r\<rparr>)
            | _ \<Rightarrow> None)
      else None)"
| "step out (WgDone i) s =
     (if exited s = None \<and> i < length (fetchers s) \<and> fetchers s ! i = Deferred
      then Some (s\<lparr>fetchers := (fetchers s)[i := Done]\<rparr>)
      else None)"
| "step out DoAppend s =
     (if exited s = None
      then (case collector s of
              Append r \<Rightarrow> Some (s\<lparr>main_rows := main_rows s @ r, collector := Receive\<rparr>)
            | _ \<Rightarrow> None)
      else None)"
| "step out DoReturn s =
     (if exited s = None \<and> collector s = Receive \<and> closed s
      then Some (s\<lparr>collector := Returned\<rparr>)
      else None)"
| "step out Wait s =
     (if exited s = None \<and> controller s = AtWait \<and> list_all (\<lambda>f. f = Done) (fetchers s)
      then Some (s\<lparr>controller := AtClose\<rparr>)
      else None)"
| "step out Close s =
     (if exited s = None \<and> controller s = AtClose
      then Some (s\<lparr>closed := True, controller := AtSort\<rparr>)
      else None)"
| "step out Sort s =
     (if exited s = None \<and> controller s = AtSort
      then Some (s\<lparr>main_rows := sort_Sort (main_rows s), controller := AtRender\<rparr>)
      else None)"
| "step out Render s =
     (if exited s = None \<and> controller s = AtRender
      then (case render tableHeader (main_rows s) of
              Inl e \<Rightarrow> Some (s\<lparr>exited := Some e\<rparr>)
            | Inr table \<Rightarrow> Some (s\<lparr>controller := AtSleep table\<rparr>))
      else None)"

fun run :: "(nat \<Rightarrow> exit + Rows) \<Rightarrow> action list \<Rightarrow> state \<Rightarrow> state option" where
  "run out [] s = Some s"
| "run out (a # as) s = (case step out a s of None \<Rightarrow> None | Some s' \<Rightarrow> run out as s')"

subsection \<open>The outcome of a list call\<close>

text \<open>The error of the list call of fetcher \<open>i\<close>, when it failed.\<close>

definition listError :: "Cluster \<Rightarrow> nat \<Rightarrow> string option" where
  "listError api i =
     (if i = 0 then (case Nodes_List api of Inl err \<Rightarrow> Some err | Inr _ \<Rightarrow> None)
      else if i = 1 then (case Services_List api of Inl err \<Rightarrow> Some err | Inr _ \<Rightarrow> None)
      else if i = 2 then (case Deployments_List api of Inl err \<Rightarrow> Some err | Inr _ \<Rightarrow> None)
      else (case Pods_List api of Inl err \<Rightarrow> Some err | Inr _ \<Rightarrow> None))"

subsection \<open>Rows of seven fields\<close>

text \<open>
  Every row held anywhere in a state of the cycle has seven fields: the rows of
  \<open>main\<close>, the rows a fetcher is about to send, and the rows the collector has
  received and not yet appended.
\<close>

definition seven_rows :: "Rows \<Rightarrow> bool" where
  "seven_rows r \<longleftrightarrow> list_all (\<lambda>row. length row = 7) r"

definition seven :: "state \<Rightarrow> bool" where
  "seven s \<longleftrightarrow>
     seven_rows (main_rows s)
     \<and> list_all (\<lambda>f. \<forall>r. f = Sending r \<longrightarrow> seven_rows r) (fetchers s)
     \<and> (\<forall>r. collector s = Append r \<longrightarrow> seven_rows r)"

subsection \<open>Accounting for the rows of a cycle\<close>

text \<open>
  The rows fetcher \<open>i\<close> produces; the rows a fetcher goroutine has still to hand over;
  the rows the collector has received and not yet appended; and the sum of all of these
  with the rows of \<open>main\<close>.
\<close>

definition produced :: "(nat \<Rightarrow> exit + Rows) \<Rightarrow> nat \<Rightarrow> Row multiset" where
  "produced out i = (case out i of Inl e \<Rightarrow> {#} | Inr r \<Rightarrow> mset r)"

definition pending :: "(nat \<Rightarrow> exit + Rows) \<Rightarrow> nat \<Rightarrow> fetcher \<Rightarrow> Row multiset" where
  "pending out i f =
     (case f of Start \<Rightarrow> produced out i | Sending r \<Rightarrow> mset r | Deferred \<Rightarrow> {#} | Done \<Rightarrow> {#})"

definition received :: "collector \<Rightarrow> Row multiset" where
  "received c = (case c of Receive \<Rightarrow> {#} | Append r \<Rightarrow> mset r | Returned \<Rightarrow> {#})"

definition accounted :: "(nat \<Rightarrow> exit + Rows) \<Rightarrow> state \<Rightarrow> Row multiset" where
  "accounted out s =
     mset (main_rows s) + received (collector s)
     + (\<Sum>i < length (fetchers s). pending out i (fetchers s ! i))"

subsection \<open>Three schedules of one cycle\<close>

text \<open>
  In all three, every fetcher runs and the services, deployments and pods are sent and
  appended first. In \<open>early_read\<close> the node fetcher's send is received, the fetcher
  returns and calls \<open>wg.Done()\<close>, and \<open>main\<close> goes on to sort and render before the
  collector has run its \<open>append\<close>. In \<open>late_append\<close> the collector runs its \<open>append\<close>
  between the sort and the render of \<open>main\<close>. In \<open>drained_read\<close> the collector
  appends, and returns on the closed channel, before \<open>main\<close> sorts.
\<close>

definition early_read :: "action list" where
  "early_read =
     [Fetch 0, Fetch 1, Fetch 2, Fetch 3,
      Send 1, DoAppend, WgDone 1,
      Send 2, DoAppend, WgDone 2,
      Send 3, DoAppend, WgDone 3,
      Send 0, WgDone 0,
      Wait, Close, Sort, Render]"

definition late_append :: "action list" where
  "late_append =
     [Fetch 0, Fetch 1, Fetch 2, Fetch 3,
      Send 1, DoAppend, WgDone 1,
      Send 2, DoAppend, WgDone 2,
      Send 3, DoAppend, WgDone 3,
      Send 0, WgDone 0,
      Wait, Close, Sort, DoAppend, Render]"

definition drained_read :: "action list" where
  "drained_read =
     [Fetch 0, Fetch 1, Fetch 2, Fetch 3,
      Send 1, DoAppend, WgDone 1,
      Send 2, DoAppend, WgDone 2,
      Send 3, DoAppend, WgDone 3,
      Send 0, WgDone 0, DoAppend,
      Wait, Close, DoReturn, Sort, Render]"

subsection \<open>Field-wise comparison of rows\<close>

text \<open>
  Two strings of which neither is a proper prefix of the other: they are equal, or they
  differ at a position that both have.
\<close>

definition no_prefix :: "string \<Rightarrow> string \<Rightarrow> bool" where
  "no_prefix x y \<longleftrightarrow> \<not> strict_prefix x y \<and> \<not> strict_prefix y x"

subsection \<open>Sample data\<close>

text \<open>
  Colour functions that wrap a string in an escape sequence and a reset, and colour
  functions that leave it unchanged (what the colour library does when colour is
  switched off); the cluster of the end-to-end scenario: nodes \<open>node-a1\<close> and
  \<open>node-a2\<close>, one service, one deployment with one of two replicas available, one pod
  on \<open>node-a1\<close>.
\<close>

definition ansi :: "string \<Rightarrow> string \<Rightarrow> string" where
  "ansi code s = [CHR 0x1B] @ ''['' @ code @ ''m'' @ s @ [CHR 0x1B] @ ''[0m''"

definition colours :: Globals where
  "colours = \<lparr>colorNode = ansi ''33'', colorPod = ansi ''36'', colorService = ansi ''34'',
              colorDeployment = ansi ''35'', colorFailed = ansi ''31'',
              colorWarning = ansi ''33'', flagNamespace = []\<rparr>"

definition plain :: Globals where
  "plain = \<lparr>colorNode = (\<lambda>s. s), colorPod = (\<lambda>s. s), colorService = (\<lambda>s. s),
            colorDeployment = (\<lambda>s. s), colorFailed = (\<lambda>s. s),
            colorWarning = (\<lambda>s. s), flagNamespace = []\<rparr>"

definition node_a1 :: Node where
  "node_a1 = \<lparr>Name = ''node-a1'', Namespace = [], CreationTimestamp = 0,
              Node_Status_Phase = [],
              Node_Status_Conditions = [\<lparr>Type = ''MemoryPressure'', Status = ''False''\<rparr>,
                                        \<lparr>Type = ''Ready'', Status = ''True''\<rparr>],
              Node_Status_Addresses = [''10.0.0.1'', ''node-a1'', ''10.0.0.1'']\<rparr>"

definition node_a2 :: Node where
  "node_a2 = \<lparr>Name = ''node-a2'', Namespace = [], CreationTimestamp = 0,
              Node_Status_Phase = [],
              Node_Status_Conditions = [\<lparr>Type = ''Ready'', Status = ''True''\<rparr>],
              Node_Status_Addresses = [''10.0.0.2'']\<rparr>"

definition svc_web :: Service where
  "svc_web = \<lparr>Name = ''web'', Namespace = ''default'', CreationTimestamp = 0,
              Status_LoadBalancer_Ingress = [],
              Spec_Ports = [''http''],
              Spec_ExternalIPs = [],
              Spec_ClusterIP = ''10.96.0.7''\<rparr>"

definition dep_web :: Deployment where
  "dep_web = \<lparr>Name = ''web'', Namespace = ''default'', CreationTimestamp = 0,
              Deployment_Status_Conditions = [\<lparr>Type = ''Available'', Status = ''False''\<rparr>],
              Status_AvailableReplicas = 1,
              Status_Replicas = 2,
              Spec_Replicas = Some 2\<rparr>"

definition pod_web :: Pod where
  "pod_web = \<lparr>Name = ''web-5c689d88bb-x2x4q'', Namespace = ''default'', CreationTimestamp = 0,
              Pod_Status_Phase = ''Running'',
              Pod_Status_Conditions = [\<lparr>Type = ''Ready'', Status = ''True''\<rparr>],
              Status_PodIP = ''10.1.0.5'',
              Spec_NodeName = ''node-a1''\<rparr>"

definition cluster :: Cluster where
  "cluster = \<lparr>Nodes_List = Inr [node_a1, node_a2], Services_List = Inr [svc_web],
              Deployments_List = Inr [dep_web], Pods_List = Inr [pod_web]\<rparr>"

text \<open>Five minutes after the creation time of the sample objects.\<close>

definition clock :: int where
  "clock = 300000000000"

text \<open>
  Two pods whose names are cut to the same 20 bytes, on a node whose name shares no
  prefix with the other nodes; a cluster whose pod list call fails; a deployment whose
  \<open>Spec.Replicas\<close> is nil.
\<close>

definition pod_x :: Pod where
  "pod_x = \<lparr>Name = ''web-5c689d88bb-x2x4q'', Namespace = ''default'', CreationTimestamp = 0,
            Pod_Status_Phase = ''Running'',
            Pod_Status_Conditions = [\<lparr>Type = ''Ready'', Status = ''False''\<rparr>],
            Status_PodIP = ''10.1.0.5'',
            Spec_NodeName = ''worker1''\<rparr>"

definition pod_y :: Pod where
  "pod_y = \<lparr>Name = ''web-5c689d88cc-x2x4q'', Namespace = ''default'', CreationTimestamp = 0,
            Pod_Status_Phase = ''Running'',
            Pod_Status_Conditions = [\<lparr>Type = ''Ready'', Status = ''True''\<rparr>],
            Status_PodIP = ''10.1.0.6'',
            Spec_NodeName = ''worker1''\<rparr>"

definition cluster_down :: Cluster where
  "cluster_down = cluster\<lparr>Pods_List := Inl ''connection refused''\<rparr>"

definition dep_nil :: Deployment where
  "dep_nil = dep_web\<lparr>Name := ''api'', Spec_Replicas := None\<rparr>"

section \<open>Properties\<close>

subsection \<open>Name truncation\<close>

text \<open>
  C2, as the code has it. A name of more than 20 bytes becomes its first 12 bytes,
  three dots and its last 5 bytes, 20 bytes in all; so does a name of 25 bytes. A name
  of fewer than 20 bytes (19, say) is returned as it is. Nothing is said here about a
  name of exactly 20 bytes.
\<close>

theorem truncate_prefix12:
  "(20 < length s \<longrightarrow> truncate s = take 12 s @ ''...'' @ drop (length s - 5) s
       \<and> length (truncate s) = 20)
   \<and> (length s = 25 \<longrightarrow> truncate s = take 12 s @ ''...'' @ drop 20 s)
   \<and> (length s < 20 \<longrightarrow> truncate s = s)"
  by (simp add: truncate_def)

theorem truncate_prefix12_witness:
  "truncate ''frontend-7d9f8b6c5d-x2x4q'' = ''frontend-7d9...x2x4q''
   \<and> truncate ''nginx-5c689d88bb-qw'' = ''nginx-5c689d88bb-qw''"
  using truncate_prefix12 [of "''frontend-7d9f8b6c5d-x2x4q''"]
        truncate_prefix12 [of "''nginx-5c689d88bb-qw''"]
  by simp

text \<open>
  The claim C2 as stated fails: the prefix kept of a 25-byte name is not its first 17
  bytes, and a name of 20 bytes, which is not longer than the threshold, is changed.
\<close>

theorem truncate_counterexample:
  "length ''frontend-7d9f8b6c5d-x2x4q'' = 25
   \<and> truncate ''frontend-7d9f8b6c5d-x2x4q''
       \<noteq> take 17 ''frontend-7d9f8b6c5d-x2x4q'' @ ''...'' @ drop 20 ''frontend-7d9f8b6c5d-x2x4q''
   \<and> \<not> 20 < length ''redis-master-0-abcde''
   \<and> truncate ''redis-master-0-abcde'' \<noteq> ''redis-master-0-abcde''"
  by (simp add: truncate_def)

subsection \<open>The common prefix of the node names\<close>

lemma minmax_fold:
  "mn \<le> mx \<Longrightarrow> minmax mn mx l = (fold min l mn, fold max l mx)"
  by (induction l arbitrary: mn mx) (auto simp: min_def max_def)

lemma minmax_Min_Max: "minmax x x l = (Min (set (x # l)), Max (set (x # l)))"
  by (simp only: minmax_fold [OF order_refl] Min.set_eq_fold Max.set_eq_fold)

lemma diverge_append:
  "diverge (p @ a) (p @ b) (length p) =
     (if prefix b a then p @ a else p @ longest_common_prefix a b)"
proof (induction a arbitrary: p b)
  case Nil
  show ?case by (subst diverge.simps) simp
next
  case (Cons x a)
  show ?case
  proof (cases b)
    case Nil
    then show ?thesis by (subst diverge.simps) simp
  next
    case (Cons y b')
    show ?thesis
    proof (cases "x = y")
      case True
      have "diverge (p @ x # a) (p @ y # b') (length p)
            = diverge ((p @ [x]) @ a) ((p @ [x]) @ b') (length (p @ [x]))"
        using True by (subst diverge.simps) (simp add: nth_append)
      then show ?thesis using Cons.IH [of "p @ [x]" b'] Cons True by simp
    next
      case False
      then show ?thesis using Cons by (subst diverge.simps) (simp add: nth_append)
    qed
  qed
qed

lemma prefix_le: "prefix xs ys \<Longrightarrow> xs \<le> (ys :: 'a::linorder list)"
proof (induction xs arbitrary: ys)
  case Nil
  show ?case by simp
next
  case (Cons a xs)
  then obtain zs where "ys = a # zs" "prefix xs zs" by (cases ys) auto
  with Cons.IH show ?case by simp
qed

lemma longest_common_prefix_same: "longest_common_prefix x x = x"
  by (induction x) simp_all

lemma diverge_le:
  assumes "mn \<le> mx"
  shows "diverge mn mx 0 = longest_common_prefix mn mx"
proof (cases "prefix mx mn")
  case True
  then have "mx \<le> mn" by (rule prefix_le)
  with assms have "mn = mx" by simp
  then show ?thesis using diverge_append [of "[]" mn mx]
    by (simp add: longest_common_prefix_same)
next
  case False
  then show ?thesis using diverge_append [of "[]" mn mx] by simp
qed

lemma lcp_between:
  "mn \<le> s \<Longrightarrow> s \<le> mx \<Longrightarrow> prefix (longest_common_prefix mn mx) (s :: 'a::linorder list)"
proof (induction mn mx arbitrary: s rule: longest_common_prefix.induct)
  case (1 x xs y ys)
  show ?case
  proof (cases "x = y")
    case True
    from 1 True obtain s' where s: "s = x # s'" "xs \<le> s'" "s' \<le> ys"
      by (cases s) auto
    with 1 True show ?thesis by simp
  next
    case False
    then show ?thesis by simp
  qed
qed simp_all

lemma lcp_eq: "lcp (x # l) = longest_common_prefix (Min (set (x # l))) (Max (set (x # l)))"
proof (cases l)
  case Nil
  then show ?thesis by (simp add: longest_common_prefix_same)
next
  case (Cons y l')
  have "Min (set (x # l)) \<le> Max (set (x # l))" by (simp del: set_simps)
  then have "diverge (Min (set (x # l))) (Max (set (x # l))) 0
             = longest_common_prefix (Min (set (x # l))) (Max (set (x # l)))"
    by (rule diverge_le)
  moreover have "lcp (x # l) = (case minmax x x l of (mn, mx) \<Rightarrow> diverge mn mx 0)"
    using Cons by simp
  ultimately show ?thesis by (simp only: minmax_Min_Max split: prod.split) simp
qed

text \<open>
  C4. \<open>lcp\<close> of the empty list is the empty string and \<open>lcp\<close> of a one-element list is
  that element; for a non-empty list the result is a prefix of every element, and it
  is the byte-by-byte common prefix of the least and the greatest element in the
  lexicographic order.
\<close>

theorem lcp_common_prefix:
  "lcp [] = []
   \<and> lcp [x] = x
   \<and> (l \<noteq> [] \<longrightarrow>
        (\<forall>s \<in> set l. prefix (lcp l) s)
        \<and> lcp l = longest_common_prefix (Min (set l)) (Max (set l)))"
proof -
  have "(\<forall>s \<in> set l. prefix (lcp l) s)
        \<and> lcp l = longest_common_prefix (Min (set l)) (Max (set l))" if "l \<noteq> []"
  proof -
    from that obtain y l' where l: "l = y # l'" by (cases l) auto
    have eq: "lcp l = longest_common_prefix (Min (set l)) (Max (set l))"
      unfolding l by (rule lcp_eq)
    have "prefix (lcp l) s" if "s \<in> set l" for s
    proof -
      have "Min (set l) \<le> s" "s \<le> Max (set l)" using that by simp_all
      then show ?thesis unfolding eq by (rule lcp_between)
    qed
    with eq show ?thesis by blast
  qed
  moreover have "lcp [] = []" "lcp [x] = x" by simp_all
  ultimately show ?thesis by blast
qed

theorem lcp_common_prefix_witness:
  "lcp [''node-a1'', ''node-b'', ''node-a2''] = ''node-''
   \<and> prefix (lcp [''node-a1'', ''node-b'', ''node-a2'']) ''node-a1''
   \<and> prefix (lcp [''node-a1'', ''node-b'', ''node-a2'']) ''node-b''
   \<and> prefix (lcp [''node-a1'', ''node-b'', ''node-a2'']) ''node-a2''
   \<and> Min (set [''node-a1'', ''node-b'', ''node-a2'']) = ''node-a1''
   \<and> Max (set [''node-a1'', ''node-b'', ''node-a2'']) = ''node-b''"
  using lcp_common_prefix [of "''x''" "[''node-a1'', ''node-b'', ''node-a2'']"]
  by simp

subsection \<open>Age formatting\<close>














subsection \<open>The Sorter\<close>

text \<open>One run of the inner loop inserts the element at index \<open>length A\<close> into a sorted prefix \<open>A\<close>.\<close>

lemma insertDown_append:
  "sorted (map Sprintf_s A) \<Longrightarrow>
   \<exists>A'. insertDown (A @ x # R) (length A) = A' @ R
        \<and> mset A' = mset (A @ [x]) \<and> sorted (map Sprintf_s A')"
proof (induction A arbitrary: R rule: rev_induct)
  case Nil
  show ?case by simp
next
  case (snoc y B)
  have sB: "sorted (map Sprintf_s B)" and yB: "\<forall>b \<in> set B. Sprintf_s b \<le> Sprintf_s y"
    using snoc.prems by (auto simp: sorted_append)
  show ?case
  proof (cases "Sprintf_s x < Sprintf_s y")
    case True
    have sw: "Swap (B @ y # x # R) (Suc (length B)) (length B) = B @ x # y # R"
      by (simp add: Swap_def nth_append list_update_append)
    have ls: "Less (B @ y # x # R) (Suc (length B)) (length B)"
      using True by (simp add: Less_def nth_append)
    from snoc.IH [OF sB, of "y # R"] obtain A' where
      A': "insertDown (B @ x # y # R) (length B) = A' @ y # R"
          "mset A' = mset (B @ [x])" "sorted (map Sprintf_s A')"
      by blast
    have "set A' = set (B @ [x])" using A'(2) by (rule mset_eq_setD)
    then have "\<forall>a \<in> set A'. Sprintf_s a \<le> Sprintf_s y" using yB True by auto
    then have "sorted (map Sprintf_s (A' @ [y]))" using A'(3) by (auto simp: sorted_append)
    moreover have "insertDown ((B @ [y]) @ x # R) (length (B @ [y])) = (A' @ [y]) @ R"
      using ls sw A'(1) by simp
    moreover have "mset (A' @ [y]) = mset ((B @ [y]) @ [x])" using A'(2) by simp
    ultimately show ?thesis by blast
  next
    case False
    then have "\<not> Less (B @ y # x # R) (Suc (length B)) (length B)"
      by (simp add: Less_def nth_append)
    then have "insertDown ((B @ [y]) @ x # R) (length (B @ [y])) = ((B @ [y]) @ [x]) @ R"
      by simp
    moreover have "sorted (map Sprintf_s ((B @ [y]) @ [x]))"
      using snoc.prems yB False by (auto simp: sorted_append)
    ultimately show ?thesis by blast
  qed
qed

lemma insertion_loop:
  "k \<le> length r \<Longrightarrow>
   mset (fold (\<lambda>i r. insertDown r i) [1 ..< k] r) = mset r
   \<and> sorted (map Sprintf_s (take k (fold (\<lambda>i r. insertDown r i) [1 ..< k] r)))"
proof (induction k)
  case 0
  show ?case by simp
next
  case (Suc k)
  show ?case
  proof (cases "k = 0")
    case True
    then show ?thesis by (cases r) simp_all
  next
    case False
    define r' where "r' = fold (\<lambda>i r. insertDown r i) [1 ..< k] r"
    have IH: "mset r' = mset r" "sorted (map Sprintf_s (take k r'))"
      using Suc unfolding r'_def by simp_all
    have len: "length r' = length r" using IH(1) by (rule mset_eq_length)
    then have k: "k < length r'" using Suc.prems by simp
    have split: "r' = take k r' @ r' ! k # drop (Suc k) r'"
      using k by (rule id_take_nth_drop)
    have lk: "length (take k r') = k" using k by simp
    from insertDown_append [OF IH(2), of "r' ! k" "drop (Suc k) r'"] obtain A' where
      A': "insertDown r' k = A' @ drop (Suc k) r'" "mset A' = mset (take k r' @ [r' ! k])"
          "sorted (map Sprintf_s A')"
      using split lk by auto
    have "length A' = Suc k" using mset_eq_length [OF A'(2)] lk by simp
    then have tk: "take (Suc k) (insertDown r' k) = A'" using A'(1) by simp
    have "mset (insertDown r' k) = mset (take k r' @ [r' ! k]) + mset (drop (Suc k) r')"
      using A'(1,2) by simp
    also have "\<dots> = mset r'" by (subst (3) split) simp
    finally have ms: "mset (insertDown r' k) = mset r" using IH(1) by simp
    have "fold (\<lambda>i r. insertDown r i) [1 ..< Suc k] r = insertDown r' k"
      using False by (simp add: r'_def)
    then show ?thesis using ms tk A'(3) by simp
  qed
qed

lemma sort_Sort_mset: "mset (sort_Sort r) = mset r"
  using insertion_loop [of "length r" r] by (simp add: sort_Sort_def insertionSort_def Len_def)

lemma sort_Sort_sorted: "sorted (map Sprintf_s (sort_Sort r))"
proof -
  have "length (sort_Sort r) = length r" using sort_Sort_mset by (rule mset_eq_length)
  then show ?thesis
    using insertion_loop [of "length r" r] by (simp add: sort_Sort_def insertionSort_def Len_def)
qed



text \<open>
  The order of the result does not depend on the sorting procedure when the renderings
  of the rows are pairwise distinct: there is one permutation sorted by rendering.
\<close>

lemma sorted_by_rendering_unique:
  assumes "mset ys = mset xs" "sorted (map Sprintf_s xs)" "sorted (map Sprintf_s ys)"
    "inj_on Sprintf_s (set xs)"
  shows "ys = xs"
proof -
  have "mset (map Sprintf_s ys) = mset (map Sprintf_s xs)" using assms(1) by simp
  from properties_for_sort [OF this assms(3)] have "sort (map Sprintf_s xs) = map Sprintf_s ys" .
  moreover have "sort (map Sprintf_s xs) = map Sprintf_s xs" using assms(2) by (rule sorted_sort_id)
  ultimately have "map Sprintf_s xs = map Sprintf_s ys" by simp
  moreover have "set ys = set xs" using assms(1) by (rule mset_eq_setD)
  ultimately show ?thesis using assms(4) by (simp add: inj_on_map_eq_map)
qed

text \<open>
  Where no field is a proper prefix of the field in the same column of another row, the
  order of the renderings is the order of the rows field by field.
\<close>

lemma append_less_cancel: "p @ u < p @ v \<longleftrightarrow> u < (v :: 'a::linorder list)"
  by (induction p) simp_all

lemma diverging_less:
  "c \<noteq> d \<Longrightarrow> p @ c # u < p @ d # v \<longleftrightarrow> c < (d :: 'a::linorder)"
  by (simp add: append_less_cancel)

lemma Join_Cons_end:
  "Join (x # a) sep @ e = x @ (if a = [] then e else sep @ Join a sep @ e)"
  by (cases a) simp_all

lemma no_prefix_cases:
  assumes "no_prefix x y" "x \<noteq> y"
  obtains p c x' d y' where "x = p @ c # x'" "y = p @ d # y'" "c \<noteq> d"
proof -
  have "\<not> prefix x y" "\<not> prefix y x"
    using assms by (auto simp: no_prefix_def strict_prefix_def)
  then have "x \<parallel> y" by (simp add: parallel_def)
  from parallel_decomp [OF this] that show thesis by blast
qed

lemma rendering_less_iff:
  "list_all2 no_prefix a b \<Longrightarrow> Join a sep @ e < Join b sep @ e \<longleftrightarrow> a < b"
proof (induction a b rule: list_all2_induct)
  case Nil
  show ?case by simp
next
  case (Cons x a y b)
  have ab: "a = [] \<longleftrightarrow> b = []" using Cons.hyps(2) by (auto simp: list_all2_Nil list_all2_Nil2)
  show ?case
  proof (cases "x = y")
    case True
    then show ?thesis using Cons.IH ab
      by (simp only: Join_Cons_end append_less_cancel Cons_less_Cons) (auto simp: append_less_cancel)
  next
    case False
    from no_prefix_cases [OF Cons.hyps(1) False]
    obtain p c x' d y' where d: "x = p @ c # x'" "y = p @ d # y'" "c \<noteq> d" by blast
    have "Join (x # a) sep @ e < Join (y # b) sep @ e \<longleftrightarrow> c < d"
      unfolding Join_Cons_end d using d(3) by (simp add: diverging_less)
    moreover have "x # a < y # b \<longleftrightarrow> c < d"
      using False d by (simp add: diverging_less)
    ultimately show ?thesis by simp
  qed
qed

lemma Sprintf_s_less_iff:
  "list_all2 no_prefix a b \<Longrightarrow> Sprintf_s a < Sprintf_s b \<longleftrightarrow> a < b"
  using rendering_less_iff [of a b "'' ''" "'']''"] by (simp add: Sprintf_s_def)

lemma Sprintf_s_le_imp:
  assumes "list_all2 no_prefix a b" "list_all2 no_prefix b a" "Sprintf_s a \<le> Sprintf_s b"
  shows "a \<le> b"
proof (cases "Sprintf_s a < Sprintf_s b")
  case True
  then show ?thesis using Sprintf_s_less_iff [OF assms(1)] by simp
next
  case False
  then have eq: "Sprintf_s a = Sprintf_s b" using assms(3) by simp
  then have "\<not> a < b" "\<not> b < a"
    using Sprintf_s_less_iff [OF assms(1)] Sprintf_s_less_iff [OF assms(2)] by simp_all
  then show ?thesis by simp
qed

lemmas sample_defs = cluster_def plain_def colours_def
  node_a1_def node_a2_def svc_web_def dep_web_def pod_web_def clock_def

lemmas fetcher_defs = fetch_def getNodes_def getServices_def getDeployments_def getPods_def
  nodeRow_def serviceRow_def deploymentRow_def podRow_def Since_def
  truncate_def TrimPrefix_def itoa_def digits.simps shortHumanDuration_def
  Seconds_def Minutes_def Hours_def to_int_def quo_def

lemmas sorter_defs = sort_Sort_def insertionSort_def Len_def Less_def Swap_def Sprintf_s_def

text \<open>
  C3, as the code has it. The Sorter returns a permutation of its input in ascending
  order of the rows' renderings \<open>fmt.Sprintf("%s", row)\<close>, compared as byte strings: a
  row is rendered as its fields separated by single spaces, between brackets. When no
  field of a row is a proper prefix of the field in the same column of another row,
  the result is also in ascending order field by field, left to right (the order
  \<open>\<le>\<close> of rows as lists of strings).
\<close>

theorem sort_Sort_sorted_by_rendering:
  "mset (sort_Sort rs) = mset rs
   \<and> sorted (map Sprintf_s (sort_Sort rs))
   \<and> ((\<forall>a \<in> set rs. \<forall>b \<in> set rs. list_all2 no_prefix a b) \<longrightarrow> sorted (sort_Sort rs))"
proof -
  have "sorted (sort_Sort rs)" if np: "\<forall>a \<in> set rs. \<forall>b \<in> set rs. list_all2 no_prefix a b"
  proof -
    have "set (sort_Sort rs) = set rs" using sort_Sort_mset by (rule mset_eq_setD)
    then have "\<And>a b. a \<in> set (sort_Sort rs) \<Longrightarrow> b \<in> set (sort_Sort rs) \<Longrightarrow>
             Sprintf_s a \<le> Sprintf_s b \<Longrightarrow> a \<le> b"
      using np Sprintf_s_le_imp by blast
    moreover have "sorted_wrt (\<lambda>a b. Sprintf_s a \<le> Sprintf_s b) (sort_Sort rs)"
      using sort_Sort_sorted [of rs] by (simp only: sorted_map)
    ultimately have "sorted_wrt (\<le>) (sort_Sort rs)"
      by (rule sorted_wrt_mono_rel)
    then show ?thesis by simp
  qed
  then show ?thesis using sort_Sort_mset sort_Sort_sorted by blast
qed

theorem sort_Sort_sorted_by_rendering_witness:
  "list_all2 no_prefix (podRow colours clock ''node-a'' pod_web) (podRow colours clock ''node-a'' pod_web)
   \<and> list_all2 no_prefix (podRow colours clock ''node-a'' pod_web) (nodeRow colours clock node_a2)
   \<and> list_all2 no_prefix (nodeRow colours clock node_a2) (podRow colours clock ''node-a'' pod_web)
   \<and> list_all2 no_prefix (nodeRow colours clock node_a2) (nodeRow colours clock node_a2)
   \<and> mset (sort_Sort [podRow colours clock ''node-a'' pod_web, nodeRow colours clock node_a2])
       = mset [podRow colours clock ''node-a'' pod_web, nodeRow colours clock node_a2]
   \<and> sorted (map Sprintf_s
        (sort_Sort [podRow colours clock ''node-a'' pod_web, nodeRow colours clock node_a2]))
   \<and> sorted (sort_Sort [podRow colours clock ''node-a'' pod_web, nodeRow colours clock node_a2])"
proof -
  have h: "list_all2 no_prefix (podRow colours clock ''node-a'' pod_web) (podRow colours clock ''node-a'' pod_web)"
     "list_all2 no_prefix (podRow colours clock ''node-a'' pod_web) (nodeRow colours clock node_a2)"
     "list_all2 no_prefix (nodeRow colours clock node_a2) (podRow colours clock ''node-a'' pod_web)"
     "list_all2 no_prefix (nodeRow colours clock node_a2) (nodeRow colours clock node_a2)"
    by (simp_all add: no_prefix_def fetcher_defs sample_defs ansi_def)
  then show ?thesis
    using sort_Sort_sorted_by_rendering
      [of "[podRow colours clock ''node-a'' pod_web, nodeRow colours clock node_a2]"]
    by simp
qed

text \<open>
  The claim C3 as stated fails. With the colour functions leaving strings unchanged,
  \<open>getPods\<close> produces two rows that agree on the first three fields and whose fourth
  fields are \<open>Running\<close> and \<open>Running Ready\<close>. Field by field the first row is the
  smaller one; the Sorter puts it last, because in the renderings \<open>Running\<close> is followed
  by a space and the \<open>w\<close> of the node name, and \<open>R\<close> comes before \<open>w\<close>.
\<close>

theorem sort_Sort_fieldwise_counterexample:
  "getPods plain clock (Inr [pod_x, pod_y]) [] =
     Inr [[''[pod]'', ''default'', ''web-5c689d88...x2x4q'', ''Running'', ''worker1'', ''10.1.0.5'', ''5m''],
          [''[pod]'', ''default'', ''web-5c689d88...x2x4q'', ''Running Ready'', ''worker1'', ''10.1.0.6'', ''5m'']]
   \<and> [''[pod]'', ''default'', ''web-5c689d88...x2x4q'', ''Running'', ''worker1'', ''10.1.0.5'', ''5m'']
       < [''[pod]'', ''default'', ''web-5c689d88...x2x4q'', ''Running Ready'', ''worker1'', ''10.1.0.6'', ''5m'']
   \<and> sort_Sort
        [[''[pod]'', ''default'', ''web-5c689d88...x2x4q'', ''Running'', ''worker1'', ''10.1.0.5'', ''5m''],
         [''[pod]'', ''default'', ''web-5c689d88...x2x4q'', ''Running Ready'', ''worker1'', ''10.1.0.6'', ''5m'']]
       = [[''[pod]'', ''default'', ''web-5c689d88...x2x4q'', ''Running Ready'', ''worker1'', ''10.1.0.6'', ''5m''],
          [''[pod]'', ''default'', ''web-5c689d88...x2x4q'', ''Running'', ''worker1'', ''10.1.0.5'', ''5m'']]
   \<and> \<not> sorted (sort_Sort
        [[''[pod]'', ''default'', ''web-5c689d88...x2x4q'', ''Running'', ''worker1'', ''10.1.0.5'', ''5m''],
         [''[pod]'', ''default'', ''web-5c689d88...x2x4q'', ''Running Ready'', ''worker1'', ''10.1.0.6'', ''5m'']])"
  by (simp add: sorter_defs fetcher_defs plain_def pod_x_def pod_y_def clock_def)



subsection \<open>The fetchers\<close>

lemma nodeRow_len: "length (nodeRow g now node) = 7"
  by (simp add: nodeRow_def Let_def)

lemma serviceRow_len: "length (serviceRow g now service) = 7"
  by (simp add: serviceRow_def Let_def)

lemma podRow_len: "length (podRow g now lcpNodes pod) = 7"
  by (simp add: podRow_def Let_def)

lemma nodeRows_len:
  "list_all (\<lambda>r. length r = 7) rows \<Longrightarrow>
   list_all (\<lambda>r. length r = 7) (nodeRows g now rows items)"
  by (induction items arbitrary: rows) (simp_all add: nodeRow_len)

lemma serviceRows_len:
  "list_all (\<lambda>r. length r = 7) rows \<Longrightarrow>
   list_all (\<lambda>r. length r = 7) (serviceRows g now rows items)"
  by (induction items arbitrary: rows) (simp_all add: serviceRow_len)

lemma podRows_len:
  "list_all (\<lambda>r. length r = 7) rows \<Longrightarrow>
   list_all (\<lambda>r. length r = 7) (podRows g now lcpNodes rows items)"
  by (induction items arbitrary: rows) (simp_all add: podRow_len)

lemma deploymentRow_len: "deploymentRow g now dep = Inr row \<Longrightarrow> length row = 7"
  by (auto simp: deploymentRow_def Let_def split: option.splits)

lemma deploymentRows_len:
  "list_all (\<lambda>r. length r = 7) rows \<Longrightarrow> deploymentRows g now rows items = Inr rs \<Longrightarrow>
   list_all (\<lambda>r. length r = 7) rs"
proof (induction items arbitrary: rows)
  case Nil
  then show ?case by simp
next
  case (Cons dep items)
  show ?case
  proof (cases "deploymentRow g now dep")
    case (Inl e)
    then show ?thesis using Cons by (auto split: if_splits)
  next
    case (Inr row)
    then have "list_all (\<lambda>r. length r = 7) (rows @ [row])"
      using Cons.prems(1) deploymentRow_len by simp
    from Cons.IH [OF this] Cons.IH [OF Cons.prems(1)] Cons.prems(2) Inr show ?thesis
      by (auto split: if_splits)
  qed
qed

lemma getNodes_len: "getNodes g now nodes = Inr rs \<Longrightarrow> list_all (\<lambda>r. length r = 7) rs"
  using nodeRows_len [of "[]" g now] by (auto simp: getNodes_def split: sum.splits)

lemma getServices_len:
  "getServices g now services = Inr rs \<Longrightarrow> list_all (\<lambda>r. length r = 7) rs"
  using serviceRows_len [of "[]" g now] by (auto simp: getServices_def split: sum.splits)

lemma getDeployments_len:
  "getDeployments g now deps = Inr rs \<Longrightarrow> list_all (\<lambda>r. length r = 7) rs"
  using deploymentRows_len [of "[]" g now _ rs]
  by (auto simp: getDeployments_def split: sum.splits)

lemma getPods_len:
  "getPods g now pods lcpNodes = Inr rs \<Longrightarrow> list_all (\<lambda>r. length r = 7) rs"
  using podRows_len [of "[]" g now lcpNodes] by (auto simp: getPods_def split: sum.splits)

lemma fetch_len: "fetch g now lcpNodes api i = Inr rs \<Longrightarrow> \<forall>r \<in> set rs. length r = 7"
  using getNodes_len getServices_len getDeployments_len getPods_len
  unfolding fetch_def list_all_iff by (metis (full_types))

lemma checkRows_None:
  "\<forall>r \<in> set rest. length r = length h \<Longrightarrow> checkRows h rows i rest = None"
  by (induction rest arbitrary: i) simp_all

lemma render_same_length:
  "\<forall>r \<in> set rows. length r = length h \<Longrightarrow> render h rows = Inr (h # rows)"
  by (simp add: render_def checkRows_None)

lemma list_all_update: "list_all P xs \<Longrightarrow> P x \<Longrightarrow> list_all P (xs[i := x])"
  by (induction xs arbitrary: i) (auto split: nat.splits)

lemma sort_Sort_list_all: "list_all P (sort_Sort r) = list_all P r"
  using mset_eq_setD [OF sort_Sort_mset [of r]] by (simp add: list_all_iff)

lemma step_seven:
  assumes out: "\<forall>i r. out i = Inr r \<longrightarrow> seven_rows r"
    and "seven s" "step out a s = Some s'"
  shows "seven s' \<and> (exited s' \<noteq> exited s \<longrightarrow> (\<exists>i. out i = Inl (the (exited s'))))"
proof (cases a)
  case (Fetch i)
  then show ?thesis using assms(2,3) out
    by (auto simp: seven_def list_all_update split: if_splits sum.splits)
next
  case (Send i)
  have "seven_rows r" if "i < length (fetchers s)" "fetchers s ! i = Sending r" for r
    using assms(2) that by (auto simp: seven_def list_all_length)
  then show ?thesis using Send assms(2,3)
    by (auto simp: seven_def list_all_update split: if_splits fetcher.splits)
next
  case (WgDone i)
  then show ?thesis using assms(2,3)
    by (auto simp: seven_def list_all_update split: if_splits)
next
  case DoAppend
  then show ?thesis using assms(2,3)
    by (auto simp: seven_def seven_rows_def split: if_splits collector.splits)
next
  case Sort
  then show ?thesis using assms(2,3)
    by (auto simp: seven_def seven_rows_def sort_Sort_list_all split: if_splits)
next
  case Render
  have "render tableHeader (main_rows s) = Inr (tableHeader # main_rows s)"
    using assms(2)
    by (intro render_same_length) (simp add: seven_def seven_rows_def list_all_iff tableHeader_def)
  then show ?thesis using Render assms(2,3)
    by (auto simp: seven_def split: if_splits)
qed (use assms(2,3) in \<open>auto simp: seven_def split: if_splits\<close>)

lemma run_seven:
  assumes out: "\<forall>i r. out i = Inr r \<longrightarrow> seven_rows r"
  shows "seven s \<Longrightarrow> run out sched s = Some s' \<Longrightarrow>
         seven s' \<and> (exited s' \<noteq> exited s \<longrightarrow> (\<exists>i. out i = Inl (the (exited s'))))"
proof (induction sched arbitrary: s)
  case Nil
  then show ?case by simp
next
  case (Cons a sched)
  from Cons.prems(2) obtain s1 where s1: "step out a s = Some s1" "run out sched s1 = Some s'"
    by (auto split: option.splits)
  from step_seven [OF out Cons.prems(1) s1(1)] Cons.IH [OF _ s1(2)] show ?case
    by metis
qed

lemma cycle_exits_only_by_fetchers:
  "run (fetch g now lcpNodes api) sched init = Some s \<Longrightarrow>
     list_all (\<lambda>row. length row = 7) (main_rows s)
     \<and> (\<forall>e. exited s = Some e \<longrightarrow> (\<exists>i. fetch g now lcpNodes api i = Inl e))"
proof -
  assume r: "run (fetch g now lcpNodes api) sched init = Some s"
  have "seven init" by (simp add: seven_def seven_rows_def init_def)
  moreover have "\<forall>i r. fetch g now lcpNodes api i = Inr r \<longrightarrow> seven_rows r"
    using fetch_len [of g now lcpNodes api] by (simp add: list_all_iff seven_rows_def)
  ultimately have "seven s \<and> (exited s \<noteq> exited init \<longrightarrow>
      (\<exists>i. fetch g now lcpNodes api i = Inl (the (exited s))))"
    using r by (intro run_seven)
  then show ?thesis by (auto simp: seven_def seven_rows_def init_def)
qed

lemma run_render_ok:
  assumes "run (fetch g now lcpNodes api) sched init = Some s"
  shows "render tableHeader (main_rows s) = Inr (tableHeader # main_rows s)"
proof -
  have "list_all (\<lambda>row. length row = 7) (main_rows s)"
    using cycle_exits_only_by_fetchers [OF assms] by simp
  then show ?thesis
    by (intro render_same_length) (simp add: list_all_iff tableHeader_def)
qed

text \<open>The rows of the four fetchers on the sample cluster, colours off.\<close>

lemma sample_fetch_0: "fetch plain clock ''node-a'' cluster 0 =
  Inr [[''[node]'', [], ''node-a1'', ''Ready'', [], ''10.0.0.1 node-a1'', ''5m''],
       [''[node]'', [], ''node-a2'', ''Ready'', [], ''10.0.0.2'', ''5m'']]"
  by (simp add: sample_defs fetcher_defs)

lemma sample_fetch_1: "fetch plain clock ''node-a'' cluster 1 =
  Inr [[''[svc]'', ''default'', ''web'', [], [], ''10.96.0.7 http'', ''5m'']]"
  by (simp add: sample_defs fetcher_defs)

lemma sample_fetch_2: "fetch plain clock ''node-a'' cluster 2 =
  Inr [[''[deploy]'', ''default'', ''web'', ''1/2/2 '', [], [], ''5m'']]"
  by (simp add: sample_defs fetcher_defs)

lemma sample_fetch_3: "fetch plain clock ''node-a'' cluster 3 =
  Inr [[''[pod]'', ''default'', ''web-5c689d88...x2x4q'', ''Running Ready'', ''1'', ''10.1.0.5'', ''5m'']]"
  by (simp add: sample_defs fetcher_defs)

text \<open>
  C7. The header has seven fields, and so has every row a fetcher returns. So
  \<open>render\<close>, given the header and any list of rows taken from the fetchers' results,
  does not end the process, and hands the header and then the rows, in the order
  given, to the table; and this holds for the rows of \<open>main\<close> in every state a cycle
  can reach.
\<close>

theorem rows_have_seven_fields:
  "length tableHeader = 7
   \<and> (fetch g now lcpNodes api i = Inr rs \<longrightarrow> (\<forall>row \<in> set rs. length row = 7))
   \<and> ((\<forall>row \<in> set snapshot. \<exists>j rs. fetch g now lcpNodes api j = Inr rs \<and> row \<in> set rs)
        \<longrightarrow> render tableHeader snapshot = Inr (tableHeader # snapshot))
   \<and> (run (fetch g now lcpNodes api) sched init = Some s
        \<longrightarrow> render tableHeader (main_rows s) = Inr (tableHeader # main_rows s))"
proof -
  have "render tableHeader snapshot = Inr (tableHeader # snapshot)"
    if "\<forall>row \<in> set snapshot. \<exists>j rs. fetch g now lcpNodes api j = Inr rs \<and> row \<in> set rs"
  proof -
    have "\<forall>row \<in> set snapshot. length row = length tableHeader"
      using that fetch_len by (fastforce simp: tableHeader_def)
    then show ?thesis by (rule render_same_length)
  qed
  moreover have "length tableHeader = 7" by (simp add: tableHeader_def)
  ultimately show ?thesis using fetch_len run_render_ok by blast
qed

theorem rows_have_seven_fields_witness:
  "fetch plain clock ''node-a'' cluster 3 =
     Inr [[''[pod]'', ''default'', ''web-5c689d88...x2x4q'', ''Running Ready'', ''1'', ''10.1.0.5'', ''5m'']]
   \<and> length [''[pod]'', ''default'', ''web-5c689d88...x2x4q'', ''Running Ready'', ''1'', ''10.1.0.5'', ''5m''] = 7
   \<and> render tableHeader
        [[''[deploy]'', ''default'', ''web'', ''1/2/2 '', [], [], ''5m''],
         [''[pod]'', ''default'', ''web-5c689d88...x2x4q'', ''Running Ready'', ''1'', ''10.1.0.5'', ''5m'']]
       = Inr [tableHeader,
         [''[deploy]'', ''default'', ''web'', ''1/2/2 '', [], [], ''5m''],
         [''[pod]'', ''default'', ''web-5c689d88...x2x4q'', ''Running Ready'', ''1'', ''10.1.0.5'', ''5m'']]
   \<and> map_option main_rows (run (fetch plain clock ''node-a'' cluster) [Fetch 3, Send 3, DoAppend] init)
       = Some [[''[pod]'', ''default'', ''web-5c689d88...x2x4q'', ''Running Ready'', ''1'', ''10.1.0.5'', ''5m'']]
   \<and> render tableHeader
        (main_rows (the (run (fetch plain clock ''node-a'' cluster) [Fetch 3, Send 3, DoAppend] init)))
       = Inr [tableHeader,
         [''[pod]'', ''default'', ''web-5c689d88...x2x4q'', ''Running Ready'', ''1'', ''10.1.0.5'', ''5m'']]"
proof -
  have h: "\<forall>row \<in> set [[''[deploy]'', ''default'', ''web'', ''1/2/2 '', [], [], ''5m''],
         [''[pod]'', ''default'', ''web-5c689d88...x2x4q'', ''Running Ready'', ''1'', ''10.1.0.5'', ''5m'']].
       \<exists>j rs. fetch plain clock ''node-a'' cluster j = Inr rs \<and> row \<in> set rs"
    using sample_fetch_2 sample_fetch_3 by fastforce
  have r: "run (fetch plain clock ''node-a'' cluster) [Fetch 3, Send 3, DoAppend] init
      = Some \<lparr>fetchers = [Start, Start, Start, Deferred], collector = Receive, controller = AtWait,
          main_rows = [[''[pod]'', ''default'', ''web-5c689d88...x2x4q'', ''Running Ready'', ''1'', ''10.1.0.5'', ''5m'']],
          closed = False, exited = None\<rparr>"
    by (simp add: sample_fetch_3 init_def)
  show ?thesis
    using rows_have_seven_fields [of plain clock "''node-a''" cluster 3
        "[[''[pod]'', ''default'', ''web-5c689d88...x2x4q'', ''Running Ready'', ''1'', ''10.1.0.5'', ''5m'']]"
        "[[''[deploy]'', ''default'', ''web'', ''1/2/2 '', [], [], ''5m''],
          [''[pod]'', ''default'', ''web-5c689d88...x2x4q'', ''Running Ready'', ''1'', ''10.1.0.5'', ''5m'']]"
        "[Fetch 3, Send 3, DoAppend]"
        "\<lparr>fetchers = [Start, Start, Start, Deferred], collector = Receive, controller = AtWait,
          main_rows = [[''[pod]'', ''default'', ''web-5c689d88...x2x4q'', ''Running Ready'', ''1'', ''10.1.0.5'', ''5m'']],
          closed = False, exited = None\<rparr>"]
      h r sample_fetch_3
    by simp
qed

text \<open>
  C9. With a non-empty \<open>-namespace\<close> flag, and nodes whose namespace is empty (nodes are
  not namespaced), \<open>getNodes\<close> skips every node and sends no row.
\<close>

theorem getNodes_filtered:
  "flagNamespace g \<noteq> [] \<Longrightarrow> \<forall>node \<in> set items. Namespace node = [] \<Longrightarrow>
   getNodes g now (Inr items) = Inr []"
proof -
  assume f: "flagNamespace g \<noteq> []" and e: "\<forall>node \<in> set items. Namespace node = []"
  have "nodeRows g now rows items = rows" for rows
    using e f by (induction items arbitrary: rows) auto
  then show ?thesis by (simp add: getNodes_def)
qed


theorem getNodes_filtered_witness:
  "flagNamespace (plain\<lparr>flagNamespace := ''default''\<rparr>) = ''default''
   \<and> Namespace node_a1 = [] \<and> Namespace node_a2 = []
   \<and> getNodes (plain\<lparr>flagNamespace := ''default''\<rparr>) clock (Inr [node_a1, node_a2]) = Inr []"
  using getNodes_filtered [of "plain\<lparr>flagNamespace := ''default''\<rparr>" "[node_a1, node_a2]" clock]
  by (simp add: node_a1_def node_a2_def plain_def)

lemma deploymentRows_total:
  "\<forall>d \<in> set items. Spec_Replicas d \<noteq> None \<Longrightarrow> \<exists>rs. deploymentRows g now rows items = Inr rs"
proof (induction items arbitrary: rows)
  case Nil
  show ?case by simp
next
  case (Cons dep items)
  then obtain n where "Spec_Replicas dep = Some n" by auto
  then obtain row where "deploymentRow g now dep = Inr row"
    by (simp add: deploymentRow_def Let_def)
  then show ?case using Cons by simp
qed

lemma deploymentRows_nil:
  assumes "Spec_Replicas d = None" "Namespace d \<noteq> ''kube-system''"
    "flagNamespace g = [] \<or> Namespace d = flagNamespace g"
  shows "deploymentRows g now rows (pre @ d # post) = Inl Panic"
proof (induction pre arbitrary: rows)
  case Nil
  show ?case using assms by (auto simp: deploymentRow_def)
next
  case (Cons dep pre)
  show ?case
  proof (cases "deploymentRow g now dep")
    case (Inl e)
    then have "e = Panic" by (auto simp: deploymentRow_def Let_def split: option.splits)
    then show ?thesis using Inl Cons by simp
  next
    case (Inr row)
    then show ?thesis using Cons by simp
  qed
qed

text \<open>
  C10. \<open>getDeployments\<close> returns rows when \<open>Spec.Replicas\<close> of every listed deployment
  is set. A deployment that is not skipped by the two namespace tests and whose
  \<open>Spec.Replicas\<close> is nil makes it panic, wherever it stands in the list.
\<close>

theorem getDeployments_nil_Replicas:
  "((\<forall>d \<in> set items. Spec_Replicas d \<noteq> None) \<longrightarrow>
      (\<exists>rs. getDeployments g now (Inr items) = Inr rs))
   \<and> (Spec_Replicas d = None \<and> Namespace d \<noteq> ''kube-system''
        \<and> (flagNamespace g = [] \<or> Namespace d = flagNamespace g) \<longrightarrow>
        getDeployments g now (Inr (pre @ d # post)) = Inl Panic)"
  using deploymentRows_total [of items g now "[]"] deploymentRows_nil [of d g now "[]" pre post]
  by (auto simp: getDeployments_def)


theorem getDeployments_nil_Replicas_witness:
  "Spec_Replicas dep_web = Some 2
   \<and> getDeployments plain clock (Inr [dep_web])
       = Inr [[''[deploy]'', ''default'', ''web'', ''1/2/2 '', [], [], ''5m'']]
   \<and> Spec_Replicas dep_nil = None \<and> Namespace dep_nil = ''default''
   \<and> getDeployments plain clock (Inr ([dep_web] @ dep_nil # [dep_web])) = Inl Panic"
  using getDeployments_nil_Replicas [of "[dep_web]" plain clock dep_nil "[dep_web]" "[dep_web]"]
  by (simp add: dep_web_def dep_nil_def plain_def fetcher_defs clock_def)

subsection \<open>The cycle\<close>

lemma step_exited: "exited s \<noteq> None \<Longrightarrow> step out a s = None"
  by (cases a) auto

lemma run_exited: "exited s \<noteq> None \<Longrightarrow> run out sched s = Some s' \<Longrightarrow> sched = [] \<and> s' = s"
  by (cases sched) (simp_all add: step_exited)

lemma step_waiting:
  assumes "out i = Inl e" "i < length (fetchers s)" "fetchers s ! i = Start" "controller s = AtWait"
    "step out a s = Some s'"
  shows "i < length (fetchers s') \<and> fetchers s' ! i = Start \<and> controller s' = AtWait
         \<and> (a = Fetch i \<longrightarrow> exited s' = Some e)"
proof (cases a)
  case (Fetch j)
  then show ?thesis using assms
    by (cases "j = i") (auto split: if_splits sum.splits)
next
  case (Send j)
  then show ?thesis using assms
    by (cases "j = i") (auto split: if_splits fetcher.splits)
next
  case (WgDone j)
  then show ?thesis using assms
    by (cases "j = i") (auto split: if_splits)
next
  case Wait
  then show ?thesis using assms by (auto simp: list_all_length split: if_splits)
qed (use assms in \<open>auto split: if_splits collector.splits sum.splits\<close>)

lemma run_waiting:
  assumes "out i = Inl e"
  shows "i < length (fetchers s) \<Longrightarrow> fetchers s ! i = Start \<Longrightarrow> controller s = AtWait \<Longrightarrow>
         run out sched s = Some s' \<Longrightarrow>
         fetchers s' ! i = Start \<and> controller s' = AtWait
         \<and> (Fetch i \<in> set sched \<longrightarrow> exited s' = Some e \<and> last sched = Fetch i)"
proof (induction sched arbitrary: s)
  case Nil
  then show ?case by simp
next
  case (Cons a sched)
  from Cons.prems(4) obtain s1 where s1: "step out a s = Some s1" "run out sched s1 = Some s'"
    by (auto split: option.splits)
  note w = step_waiting [OF assms Cons.prems(1,2,3) s1(1)]
  show ?case
  proof (cases "a = Fetch i")
    case True
    then have "exited s1 \<noteq> None" using w by simp
    from run_exited [OF this s1(2)] True w show ?thesis by simp
  next
    case False
    from Cons.IH [OF _ _ _ s1(2)] w False show ?thesis by auto
  qed
qed

lemma fetch_listError:
  "listError api i = Some err \<Longrightarrow> fetch g now lcpNodes api i = Inl (Fatal err)"
  by (auto simp: listError_def fetch_def getNodes_def getServices_def getDeployments_def
      getPods_def split: if_splits sum.splits)

text \<open>
  C8. When the list call of fetcher \<open>i\<close> fails, the fetcher ends the process with
  \<open>log.Fatal\<close> of that error instead of returning rows. In every state a cycle can
  reach, that fetcher has sent nothing and \<open>main\<close> is still at \<open>wg.Wait()\<close>, so nothing
  has been sorted or rendered; once the fetcher has run, the process has exited with
  that error, its step was the last one, and no goroutine can take another step.
\<close>

theorem list_error_is_fatal:
  "i < 4 \<Longrightarrow> listError api i = Some err \<Longrightarrow>
   fetch g now lcpNodes api i = Inl (Fatal err)
   \<and> (run (fetch g now lcpNodes api) sched init = Some s \<longrightarrow>
        fetchers s ! i = Start \<and> controller s = AtWait
        \<and> (Fetch i \<in> set sched \<longrightarrow> exited s = Some (Fatal err) \<and> last sched = Fetch i))
   \<and> (exited s' \<noteq> None \<longrightarrow> step (fetch g now lcpNodes api) a s' = None)"
proof -
  assume i: "i < 4" and err: "listError api i = Some err"
  have out: "fetch g now lcpNodes api i = Inl (Fatal err)"
    using err by (rule fetch_listError)
  have "i < length (fetchers init)" "fetchers init ! i = Start" "controller init = AtWait"
    using i by (auto simp: init_def nth_Cons split: nat.splits)
  from run_waiting [of "fetch g now lcpNodes api" i "Fatal err" init sched s, OF out this]
    out step_exited [of s' "fetch g now lcpNodes api" a]
  show ?thesis by blast
qed

theorem list_error_is_fatal_witness:
  "listError cluster_down 3 = Some ''connection refused''
   \<and> fetch plain clock ''node-a'' cluster_down 3 = Inl (Fatal ''connection refused'')
   \<and> map_option (\<lambda>s. (fetchers s ! 3, controller s, exited s))
        (run (fetch plain clock ''node-a'' cluster_down) [Fetch 1, Send 1, Fetch 3] init)
       = Some (Start, AtWait, Some (Fatal ''connection refused''))
   \<and> step (fetch plain clock ''node-a'' cluster_down) (WgDone 1)
        (the (run (fetch plain clock ''node-a'' cluster_down) [Fetch 1, Send 1, Fetch 3] init))
       = None"
proof -
  have e: "listError cluster_down 3 = Some ''connection refused''"
    by (simp add: listError_def cluster_down_def)
  have r: "run (fetch plain clock ''node-a'' cluster_down) [Fetch 1, Send 1, Fetch 3] init
           = Some (the (run (fetch plain clock ''node-a'' cluster_down) [Fetch 1, Send 1, Fetch 3] init))"
    by (simp add: init_def fetch_def getServices_def getPods_def cluster_down_def cluster_def)
  have x: "exited (the (run (fetch plain clock ''node-a'' cluster_down) [Fetch 1, Send 1, Fetch 3] init)) \<noteq> None"
    by (simp add: init_def fetch_def getServices_def getPods_def cluster_down_def cluster_def)
  show ?thesis
    using list_error_is_fatal [of 3 cluster_down "''connection refused''" plain clock "''node-a''"
      "[Fetch 1, Send 1, Fetch 3]"
      "the (run (fetch plain clock ''node-a'' cluster_down) [Fetch 1, Send 1, Fetch 3] init)"
      "the (run (fetch plain clock ''node-a'' cluster_down) [Fetch 1, Send 1, Fetch 3] init)"
      "WgDone 1"] e r x
    by (cases "run (fetch plain clock ''node-a'' cluster_down) [Fetch 1, Send 1, Fetch 3] init") auto
qed

text \<open>
  No step of a cycle creates, duplicates or loses a row: the rows of \<open>main\<close>, the rows
  the collector holds and the rows the fetchers have still to hand over always add up
  to the rows the four fetchers produce. So the rows of \<open>main\<close> are always among the
  rows produced, and they are all of them once every fetcher has called \<open>wg.Done()\<close>
  and the collector holds nothing.
\<close>

lemma pending_update:
  assumes "i < length fs"
  shows "(\<Sum>j < length (fs[i := f]). pending out j (fs[i := f] ! j)) + pending out i (fs ! i)
         = (\<Sum>j < length fs. pending out j (fs ! j)) + pending out i f"
proof -
  have fin: "finite {..< length fs}" and mem: "i \<in> {..< length fs}" using assms by simp_all
  have "(\<Sum>j < length fs. pending out j (fs[i := f] ! j))
        = pending out i f + (\<Sum>j \<in> {..< length fs} - {i}. pending out j (fs[i := f] ! j))"
    using sum.remove [OF fin mem, of "\<lambda>j. pending out j (fs[i := f] ! j)"] assms by simp
  moreover have "(\<Sum>j \<in> {..< length fs} - {i}. pending out j (fs[i := f] ! j))
        = (\<Sum>j \<in> {..< length fs} - {i}. pending out j (fs ! j))"
    by (rule sum.cong) auto
  moreover have "(\<Sum>j < length fs. pending out j (fs ! j))
        = pending out i (fs ! i) + (\<Sum>j \<in> {..< length fs} - {i}. pending out j (fs ! j))"
    using sum.remove [OF fin mem, of "\<lambda>j. pending out j (fs ! j)"] by simp
  ultimately show ?thesis by (simp add: ac_simps)
qed

lemma accounted_update:
  assumes "i < length (fetchers s)" "pending out i f + extra = pending out i (fetchers s ! i)"
  shows "(\<Sum>j < length ((fetchers s)[i := f]). pending out j ((fetchers s)[i := f] ! j)) + extra
         = (\<Sum>j < length (fetchers s). pending out j (fetchers s ! j))"
proof -
  from pending_update [OF assms(1), where f = f and out = out]
  have "(\<Sum>j < length ((fetchers s)[i := f]). pending out j ((fetchers s)[i := f] ! j))
          + (pending out i f + extra)
        = (\<Sum>j < length (fetchers s). pending out j (fetchers s ! j)) + pending out i f"
    unfolding assms(2) .
  then show ?thesis by (simp add: ac_simps)
qed

lemma step_accounted:
  assumes "step out a s = Some s'"
  shows "accounted out s' = accounted out s"
proof (cases a)
  case (Fetch i)
  show ?thesis
  proof (cases "out i")
    case (Inl e)
    then show ?thesis using Fetch assms by (auto simp: accounted_def split: if_splits)
  next
    case (Inr r)
    then have s': "s' = s\<lparr>fetchers := (fetchers s)[i := Sending r]\<rparr>"
      and i: "i < length (fetchers s)" "fetchers s ! i = Start"
      using Fetch assms by (auto split: if_splits)
    have "pending out i (Sending r) + {#} = pending out i (fetchers s ! i)"
      using Inr i by (simp add: pending_def produced_def)
    from accounted_update [OF i(1) this] show ?thesis by (simp add: accounted_def s')
  qed
next
  case (Send i)
  then obtain r where s': "s' = s\<lparr>fetchers := (fetchers s)[i := Deferred], collector := Append r\<rparr>"
    and i: "i < length (fetchers s)" "fetchers s ! i = Sending r" "collector s = Receive"
    using assms by (auto split: if_splits fetcher.splits)
  have "pending out i Deferred + mset r = pending out i (fetchers s ! i)"
    using i by (simp add: pending_def)
  from accounted_update [OF i(1) this] show ?thesis
    by (simp add: accounted_def s' i(3) received_def ac_simps)
next
  case (WgDone i)
  then have s': "s' = s\<lparr>fetchers := (fetchers s)[i := Done]\<rparr>"
    and i: "i < length (fetchers s)" "fetchers s ! i = Deferred"
    using assms by (auto split: if_splits)
  have "pending out i Done + {#} = pending out i (fetchers s ! i)"
    using i by (simp add: pending_def)
  from accounted_update [OF i(1) this] show ?thesis by (simp add: accounted_def s')
next
  case DoAppend
  then show ?thesis using assms
    by (auto simp: accounted_def received_def split: if_splits collector.splits)
next
  case Sort
  then show ?thesis using assms
    by (auto simp: accounted_def sort_Sort_mset split: if_splits)
qed (use assms in \<open>auto simp: accounted_def received_def split: if_splits sum.splits\<close>)

lemma run_accounted: "run out sched s = Some s' \<Longrightarrow> accounted out s' = accounted out s"
proof (induction sched arbitrary: s)
  case Nil
  then show ?case by simp
next
  case (Cons a sched)
  then obtain s1 where "step out a s = Some s1" "run out sched s1 = Some s'"
    by (auto split: option.splits)
  then show ?case using Cons.IH [of s1] step_accounted [of out a s s1] by simp
qed

lemma accounted_init: "accounted out init = (\<Sum>i < 4. produced out i)"
proof -
  have r: "fetchers init = replicate 4 Start" by (simp add: init_def eval_nat_numeral)
  have "(\<Sum>i < length (fetchers init). pending out i (fetchers init ! i))
        = (\<Sum>i < 4. produced out i)"
    unfolding r by (rule sum.cong) (simp_all add: pending_def)
  then show ?thesis by (simp add: accounted_def received_def init_def)
qed

lemma cycle_rows_accounted:
  assumes "run out sched init = Some s"
  shows "mset (main_rows s) \<subseteq># (\<Sum>i < 4. produced out i)"
    and "list_all (\<lambda>f. f = Done) (fetchers s) \<Longrightarrow> collector s = Receive \<or> collector s = Returned \<Longrightarrow>
         mset (main_rows s) = (\<Sum>i < 4. produced out i)"
proof -
  have eq: "accounted out s = (\<Sum>i < 4. produced out i)"
    using run_accounted [OF assms] accounted_init by simp
  then show "mset (main_rows s) \<subseteq># (\<Sum>i < 4. produced out i)"
    unfolding accounted_def add.assoc by (metis mset_subset_eq_add_left)
  assume d: "list_all (\<lambda>f. f = Done) (fetchers s)"
    and c: "collector s = Receive \<or> collector s = Returned"
  have "(\<Sum>i < length (fetchers s). pending out i (fetchers s ! i)) = {#}"
    using d by (simp add: list_all_length pending_def)
  moreover have "received (collector s) = {#}" using c by (auto simp: received_def)
  ultimately show "mset (main_rows s) = (\<Sum>i < 4. produced out i)"
    using eq by (simp add: accounted_def)
qed

text \<open>
  C1 does not hold of the code: \<open>main\<close> waits for the four fetchers and closes the
  channel, and then reads \<open>rows\<close> without waiting for the collector. On the sample
  cluster the fetchers produce five rows. Under the schedule \<open>early_read\<close> the table
  rendered has three of them, the two node rows being still in the hands of the
  collector; under \<open>late_append\<close> three rows are sorted and the two node rows are
  rendered after them, out of order; under \<open>drained_read\<close> all five are sorted and
  rendered.
\<close>

theorem cycle_renders_before_append:
  "map_option (\<lambda>s. (controller s, collector s)) (run (fetch plain clock ''node-a'' cluster) early_read init)
  = Some (AtSleep [tableHeader,
       [''[deploy]'', ''default'', ''web'', ''1/2/2 '', [], [], ''5m''],
       [''[pod]'', ''default'', ''web-5c689d88...x2x4q'', ''Running Ready'', ''1'', ''10.1.0.5'', ''5m''],
       [''[svc]'', ''default'', ''web'', [], [], ''10.96.0.7 http'', ''5m'']],
     Append [[''[node]'', [], ''node-a1'', ''Ready'', [], ''10.0.0.1 node-a1'', ''5m''],
       [''[node]'', [], ''node-a2'', ''Ready'', [], ''10.0.0.2'', ''5m'']])
   \<and> map_option (\<lambda>s. (controller s, collector s)) (run (fetch plain clock ''node-a'' cluster) drained_read init)
  = Some (AtSleep [tableHeader,
       [''[deploy]'', ''default'', ''web'', ''1/2/2 '', [], [], ''5m''],
       [''[node]'', [], ''node-a1'', ''Ready'', [], ''10.0.0.1 node-a1'', ''5m''],
       [''[node]'', [], ''node-a2'', ''Ready'', [], ''10.0.0.2'', ''5m''],
       [''[pod]'', ''default'', ''web-5c689d88...x2x4q'', ''Running Ready'', ''1'', ''10.1.0.5'', ''5m''],
       [''[svc]'', ''default'', ''web'', [], [], ''10.96.0.7 http'', ''5m'']],
     Returned)
   \<and> map_option (\<lambda>s. (controller s, collector s))
       (run (fetch plain clock ''node-a'' cluster) late_append init)
     = Some (AtSleep [tableHeader,
         [''[deploy]'', ''default'', ''web'', ''1/2/2 '', [], [], ''5m''],
         [''[pod]'', ''default'', ''web-5c689d88...x2x4q'', ''Running Ready'', ''1'', ''10.1.0.5'', ''5m''],
         [''[svc]'', ''default'', ''web'', [], [], ''10.96.0.7 http'', ''5m''],
         [''[node]'', [], ''node-a1'', ''Ready'', [], ''10.0.0.1 node-a1'', ''5m''],
         [''[node]'', [], ''node-a2'', ''Ready'', [], ''10.0.0.2'', ''5m'']],
       Receive)"
  by (simp add: sample_fetch_0 sample_fetch_1 [unfolded One_nat_def] sample_fetch_2
      sample_fetch_3 early_read_def drained_read_def late_append_def init_def sorter_defs
      render_def tableHeader_def)

end
